theory Spec2Isabelle
  imports Main "HOL-Library.Word"
begin

section \<open>First-run setup of the command-line tool (packages/cli/src/config/firstRunSetup.ts)\<close>

subsection \<open>JavaScript strings\<close>

text \<open>
  A JavaScript string is a sequence of UTF-16 code units. ASCII literals of the source are
  written \<open>js ''...''\<close>; characters outside ASCII (the emoji of the messages) are given by
  their code units.
\<close>

type_synonym jsstring = "16 word list"

definition js :: "string \<Rightarrow> jsstring" where
  "js s = map of_char s"

text \<open>
  \<open>String.prototype.trim\<close> removes, at both ends, the code units that ECMAScript calls
  WhiteSpace (TAB, VT, FF, SP, NBSP, ZWNBSP and the Unicode space separators) or
  LineTerminator (LF, CR, LS, PS). All of them lie in the basic plane, so the test is on
  single code units.
\<close>

definition isWhiteSpace :: "16 word \<Rightarrow> bool" where
  "isWhiteSpace c \<longleftrightarrow>
     c \<in> {0x0009, 0x000A, 0x000B, 0x000C, 0x000D, 0x0020, 0x00A0, 0x1680,
          0x2028, 0x2029, 0x202F, 0x205F, 0x3000, 0xFEFF}
     \<or> (0x2000 \<le> c \<and> c \<le> 0x200A)"

definition trim :: "jsstring \<Rightarrow> jsstring" where
  "trim s = rev (dropWhile isWhiteSpace (rev (dropWhile isWhiteSpace s)))"

text \<open>A string is falsy exactly when it is empty; \<open>a || b\<close> on strings.\<close>

definition or_default :: "jsstring \<Rightarrow> jsstring \<Rightarrow> jsstring" where
  "or_default a b = (if a = [] then b else a)"

text \<open>An optional string (\<open>string | undefined\<close>) is falsy when undefined or empty.\<close>

definition falsy :: "jsstring option \<Rightarrow> bool" where
  "falsy v = (case v of None \<Rightarrow> True | Some s \<Rightarrow> s = [])"

subsection \<open>Errors, promises and the observable world\<close>

datatype js_error = Error jsstring

text \<open>
  The outcome of an asynchronous function: its promise resolves, rejects with a thrown
  error, never settles (the awaited line of input never arrives), or the process has been
  terminated with an exit status.
\<close>

datatype 'a outcome = Resolved 'a | Rejected js_error | Pending | Exited int

text \<open>
  Modelled from the spec: the enumeration \<open>SettingScope\<close> is declared in \<open>settings.js\<close>,
  which is not part of the sources at hand. The spec requires a store with at least a user
  scope; the flow names the user scope only.
\<close>

datatype SettingScope = User | Workspace

datatype event =
    ConsoleLog jsstring
  | ConsoleError jsstring js_error
  | Question nat jsstring
  | SetValue SettingScope string jsstring

text \<open>
  The world of the process: the lines still to come on standard input, the environment,
  the chronological trace of what the process has written and of the calls of the settings
  setter, and the line-reading interfaces (handles are numbered as they are created).
\<close>

record world =
  stdin :: "jsstring list"
  env :: "string \<rightharpoonup> jsstring"
  trace :: "event list"
  rl_count :: nat
  rl_open :: "nat set"

definition emit :: "event \<Rightarrow> world \<Rightarrow> world" where
  "emit e w = w\<lparr>trace := trace w @ [e]\<rparr>"

definition console_log :: "jsstring \<Rightarrow> world \<Rightarrow> world" where
  "console_log s w = emit (ConsoleLog s) w"

definition console_error :: "jsstring \<Rightarrow> js_error \<Rightarrow> world \<Rightarrow> world" where
  "console_error s e w = emit (ConsoleError s e) w"

text \<open>\<open>await p\<close> followed by the rest of the function body.\<close>

fun await :: "'a outcome \<times> 's \<Rightarrow> ('a \<Rightarrow> 's \<Rightarrow> 'b outcome \<times> 's) \<Rightarrow> 'b outcome \<times> 's" where
  "await (Resolved x, w) k = k x w"
| "await (Rejected e, w) k = (Rejected e, w)"
| "await (Pending, w) k = (Pending, w)"
| "await (Exited c, w) k = (Exited c, w)"

text \<open>
  \<open>try { body } finally { fin }\<close>: the finaliser runs when the body returns or throws; a
  body that is suspended forever, or a terminated process, never reaches it.
\<close>

fun try_finally :: "'a outcome \<times> 's \<Rightarrow> ('s \<Rightarrow> 's) \<Rightarrow> 'a outcome \<times> 's" where
  "try_finally (Resolved x, w) fin = (Resolved x, fin w)"
| "try_finally (Rejected e, w) fin = (Rejected e, fin w)"
| "try_finally (Pending, w) fin = (Pending, w)"
| "try_finally (Exited c, w) fin = (Exited c, w)"

subsection \<open>The settings store\<close>

text \<open>
  Modelled from the spec: \<open>settings.js\<close> (the class \<open>LoadedSettings\<close> with its method
  \<open>setValue\<close>) is not part of the sources at hand. The spec describes an external
  key-value store with a user scope, a getter for a user-scoped string setting, a path of
  the user-scope file and a setter \<open>setValue(scope, key, value)\<close>. The setter stores the
  value under the key in the settings of the given scope and does not fail; each call is
  recorded in the trace.
\<close>

record SettingsFile =
  settings :: "string \<rightharpoonup> jsstring"
  path :: jsstring

record LoadedSettings =
  user :: SettingsFile
  workspace :: SettingsFile

definition forScope :: "SettingScope \<Rightarrow> LoadedSettings \<Rightarrow> SettingsFile" where
  "forScope scope ls = (case scope of User \<Rightarrow> user ls | Workspace \<Rightarrow> workspace ls)"

definition setValue ::
  "SettingScope \<Rightarrow> string \<Rightarrow> jsstring \<Rightarrow> LoadedSettings \<times> world \<Rightarrow> LoadedSettings \<times> world" where
  "setValue scope key v sw =
     (let (ls, w) = sw;
          f = forScope scope ls;
          f' = f\<lparr>settings := (settings f)(key \<mapsto> v)\<rparr>;
          ls' = (case scope of User \<Rightarrow> ls\<lparr>user := f'\<rparr> | Workspace \<Rightarrow> ls\<lparr>workspace := f'\<rparr>)
      in (ls', emit (SetValue scope key v) w))"

subsection \<open>The line reader\<close>

definition createReadlineInterface :: "world \<Rightarrow> nat \<times> world" where
  "createReadlineInterface w =
     (rl_count w, w\<lparr>rl_count := Suc (rl_count w), rl_open := insert (rl_count w) (rl_open w)\<rparr>)"

definition rl_close :: "nat \<Rightarrow> world \<Rightarrow> world" where
  "rl_close rl w = w\<lparr>rl_open := rl_open w - {rl}\<rparr>"

text \<open>
  \<open>rl.question\<close> writes the query and hands the next line of input to the callback, which
  resolves the promise with the trimmed line. With no line left the callback is never
  called and the promise never settles.
\<close>

definition askQuestion :: "nat \<Rightarrow> jsstring \<Rightarrow> world \<Rightarrow> jsstring outcome \<times> world" where
  "askQuestion rl question w =
     (case stdin w of
        [] \<Rightarrow> (Pending, emit (Question rl question) w)
      | answer # rest \<Rightarrow> (Resolved (trim answer), (emit (Question rl question) w)\<lparr>stdin := rest\<rparr>))"

subsection \<open>Prompting for the configuration\<close>

record FirstRunConfig =
  openaiApiKey :: jsstring
  openaiBaseUrl :: jsstring
  openaiModel :: jsstring

definition welcome_banner :: jsstring where
  "welcome_banner = [0x000A, 0xD83D, 0xDE80] @ js '' Welcome to Qwen Code!''"

definition configure_banner :: jsstring where
  "configure_banner = js ''Please configure your OpenAI API settings:'' @ [0x000A]"

definition question_key :: jsstring where
  "question_key = js ''Enter your OpenAI API Key: ''"

definition question_url :: jsstring where
  "question_url = js ''Enter OpenAI Base URL (press Enter for default: https://api.openai.com/v1): ''"

definition question_model :: jsstring where
  "question_model = js ''Enter OpenAI Model (press Enter for default: gpt-4): ''"

definition key_required :: js_error where
  "key_required = Error (js ''OpenAI API Key is required'')"

definition default_url :: jsstring where
  "default_url = js ''https://api.openai.com/v1''"

definition default_model :: jsstring where
  "default_model = js ''gpt-4''"

text \<open>The body of the \<open>try\<close> block of \<open>promptForOpenAIConfig\<close>.\<close>

definition promptForOpenAIConfig_try :: "nat \<Rightarrow> world \<Rightarrow> FirstRunConfig outcome \<times> world" where
  "promptForOpenAIConfig_try rl w =
     await (askQuestion rl question_key w) (\<lambda>apiKey w1.
       if apiKey = [] then (Rejected key_required, w1)
       else
         await (askQuestion rl question_url w1) (\<lambda>baseUrl w2.
           await (askQuestion rl question_model w2) (\<lambda>model w3.
             (Resolved \<lparr>openaiApiKey = apiKey,
                        openaiBaseUrl = or_default baseUrl default_url,
                        openaiModel = or_default model default_model\<rparr>, w3))))"

definition promptForOpenAIConfig :: "world \<Rightarrow> FirstRunConfig outcome \<times> world" where
  "promptForOpenAIConfig w =
     (let (rl, w0) = createReadlineInterface w;
          w1 = console_log welcome_banner w0;
          w2 = console_log configure_banner w1
      in try_finally (promptForOpenAIConfig_try rl w2) (rl_close rl))"

subsection \<open>The first-run flow\<close>

definition isFirstRun :: "LoadedSettings \<Rightarrow> world \<Rightarrow> bool" where
  "isFirstRun ls w =
     (let userSettings = settings (user ls)
      in falsy (userSettings ''openaiApiKey'') \<and> falsy (env w ''OPENAI_API_KEY''))"

definition saved_banner :: jsstring where
  "saved_banner = [0x000A, 0x2705] @ js '' Configuration saved successfully!''"

definition saved_to :: "jsstring \<Rightarrow> jsstring" where
  "saved_to p = js ''Settings saved to: '' @ p @ [0x000A]"

definition failed_banner :: jsstring where
  "failed_banner = [0x000A, 0x274C] @ js '' Configuration setup failed:''"

definition handleFirstRunSetup ::
  "LoadedSettings \<Rightarrow> world \<Rightarrow> unit outcome \<times> LoadedSettings \<times> world" where
  "handleFirstRunSetup ls w =
     (if \<not> isFirstRun ls w then (Resolved (), ls, w)
      else
        (case promptForOpenAIConfig w of
           (Resolved config, w1) \<Rightarrow>
             (let (ls1, w2) = setValue User ''openaiApiKey'' (openaiApiKey config) (ls, w1);
                  (ls2, w3) = setValue User ''openaiBaseUrl'' (openaiBaseUrl config) (ls1, w2);
                  (ls3, w4) = setValue User ''openaiModel'' (openaiModel config) (ls2, w3);
                  w5 = console_log saved_banner w4;
                  w6 = console_log (saved_to (path (user ls3))) w5
              in (Resolved (), ls3, w6))
         | (Rejected error, w1) \<Rightarrow> (Exited 1, ls, console_error failed_banner error w1)
         | (Pending, w1) \<Rightarrow> (Pending, ls, w1)
         | (Exited c, w1) \<Rightarrow> (Exited c, ls, w1)))"

subsection \<open>The operations as the specification words them\<close>

text \<open>
  \<open>shouldRun(storedKey, envKey)\<close> as the specification states it: true iff both the stored
  key and the environment key are absent, where absent means unset or empty.
\<close>

definition absent :: "jsstring option \<Rightarrow> bool" where
  "absent k \<longleftrightarrow> k = None \<or> k = Some []"

definition shouldRun :: "jsstring option \<Rightarrow> jsstring option \<Rightarrow> bool" where
  "shouldRun storedKey envKey \<longleftrightarrow> absent storedKey \<and> absent envKey"

text \<open>The calls of the settings setter recorded in a trace, in order.\<close>

fun setter_calls :: "event list \<Rightarrow> (SettingScope \<times> string \<times> jsstring) list" where
  "setter_calls [] = []"
| "setter_calls (SetValue scope key v # es) = (scope, key, v) # setter_calls es"
| "setter_calls (e # es) = setter_calls es"

text \<open>The queries put to the user recorded in a trace, in order.\<close>

fun questions :: "event list \<Rightarrow> jsstring list" where
  "questions [] = []"
| "questions (Question rl q # es) = q # questions es"
| "questions (e # es) = questions es"

subsection \<open>Concrete processes and stores\<close>

text \<open>
  A process at its start, with the given lines waiting on standard input and the given
  environment, and a loaded settings object with the given user settings.
\<close>

definition process_start :: "jsstring list \<Rightarrow> (string \<rightharpoonup> jsstring) \<Rightarrow> world" where
  "process_start lines e = \<lparr>stdin = lines, env = e, trace = [], rl_count = 0, rl_open = {}\<rparr>"

definition stored_settings :: "(string \<rightharpoonup> jsstring) \<Rightarrow> LoadedSettings" where
  "stored_settings m =
     \<lparr>user = \<lparr>settings = m, path = js ''/home/u/.qwen/settings.json''\<rparr>,
      workspace = \<lparr>settings = Map.empty, path = js ''/work/.qwen/settings.json''\<rparr>\<rparr>"

section \<open>Properties\<close>

subsection \<open>Trimming\<close>

lemma rev_drop_take:
  "rev (dropWhile P (rev xs)) @ rev (takeWhile P (rev xs)) = xs"
proof -
  have "rev (takeWhile P (rev xs) @ dropWhile P (rev xs)) = rev (rev xs)"
    by (simp only: takeWhile_dropWhile_id)
  then show ?thesis
    by (simp only: rev_append rev_rev_ident)
qed

lemma dropWhile_all_Nil:
  assumes "\<forall>x\<in>set (dropWhile P xs). P x"
  shows "dropWhile P xs = []"
proof (cases "dropWhile P xs")
  case Nil
  then show ?thesis .
next
  case (Cons y ys)
  then have "\<not> P y" by (simp add: dropWhile_eq_Cons_conv)
  moreover from Cons have "y \<in> set (dropWhile P xs)" by simp
  ultimately show ?thesis using assms by blast
qed

lemma dropWhile_fix:
  assumes "xs = [] \<or> \<not> P (hd xs)"
  shows "dropWhile P xs = xs"
  using assms by (cases xs) auto

lemma trim_eq_Nil_iff: "trim a = [] \<longleftrightarrow> (\<forall>c\<in>set a. isWhiteSpace c)"
proof
  assume "trim a = []"
  then have "\<forall>c\<in>set (dropWhile isWhiteSpace a). isWhiteSpace c"
    by (simp add: trim_def)
  then have "dropWhile isWhiteSpace a = []"
    by (rule dropWhile_all_Nil)
  then show "\<forall>c\<in>set a. isWhiteSpace c"
    by simp
next
  assume "\<forall>c\<in>set a. isWhiteSpace c"
  then show "trim a = []"
    by (auto simp: trim_def dest: set_dropWhileD)
qed

lemma trim_append_right:
  "trim a @ rev (takeWhile isWhiteSpace (rev (dropWhile isWhiteSpace a))) = dropWhile isWhiteSpace a"
  unfolding trim_def by (rule rev_drop_take)

lemma trim_decomp:
  "\<exists>l r. a = l @ trim a @ r \<and> (\<forall>c\<in>set l. isWhiteSpace c) \<and> (\<forall>c\<in>set r. isWhiteSpace c)"
proof -
  let ?l = "takeWhile isWhiteSpace a"
  let ?r = "rev (takeWhile isWhiteSpace (rev (dropWhile isWhiteSpace a)))"
  have "?l @ dropWhile isWhiteSpace a = a" by (rule takeWhile_dropWhile_id)
  then have "a = ?l @ trim a @ ?r" by (simp only: trim_append_right)
  moreover have "\<forall>c\<in>set ?l. isWhiteSpace c"
    by (auto dest: set_takeWhileD)
  moreover have "\<forall>c\<in>set ?r. isWhiteSpace c"
    by (auto dest: set_takeWhileD)
  ultimately show ?thesis by blast
qed

lemma trim_hd:
  assumes "trim a \<noteq> []"
  shows "\<not> isWhiteSpace (hd (trim a))"
proof -
  obtain y ys where t: "trim a = y # ys"
    using assms by (cases "trim a") auto
  have "dropWhile isWhiteSpace a = y # (ys @ rev (takeWhile isWhiteSpace (rev (dropWhile isWhiteSpace a))))"
    using trim_append_right [of a] by (simp only: t append_Cons)
  then have "\<not> isWhiteSpace y"
    by (simp add: dropWhile_eq_Cons_conv)
  with t show ?thesis by simp
qed

lemma trim_last:
  assumes "trim a \<noteq> []"
  shows "\<not> isWhiteSpace (last (trim a))"
proof -
  let ?d = "dropWhile isWhiteSpace (rev (dropWhile isWhiteSpace a))"
  obtain y ys where d: "?d = y # ys"
    using assms by (cases ?d) (auto simp: trim_def)
  then have "\<not> isWhiteSpace y"
    by (simp add: dropWhile_eq_Cons_conv)
  moreover have "last (trim a) = y"
    by (simp add: trim_def d)
  ultimately show ?thesis by simp
qed

lemma trim_idem: "trim (trim a) = trim a"
proof -
  let ?t = "trim a"
  have 1: "dropWhile isWhiteSpace ?t = ?t"
    using trim_hd [of a] by (intro dropWhile_fix) blast
  have "rev ?t = [] \<or> \<not> isWhiteSpace (hd (rev ?t))"
    using trim_last [of a] by (cases "?t = []") (simp_all add: hd_rev)
  then have 2: "dropWhile isWhiteSpace (rev ?t) = rev ?t"
    by (rule dropWhile_fix)
  have "trim ?t = rev (dropWhile isWhiteSpace (rev (dropWhile isWhiteSpace ?t)))"
    by (rule trim_def)
  also have "\<dots> = rev (rev ?t)" by (simp only: 1 2)
  finally show ?thesis by simp
qed

subsection \<open>The prompt, by the shape of the input\<close>

lemmas prompt_defs =
  promptForOpenAIConfig_def promptForOpenAIConfig_try_def createReadlineInterface_def
  askQuestion_def console_log_def emit_def rl_close_def

lemma prompt_no_input:
  assumes "stdin w = []"
  shows "promptForOpenAIConfig w =
    (Pending, w\<lparr>trace := trace w @ [ConsoleLog welcome_banner, ConsoleLog configure_banner,
                                   Question (rl_count w) question_key],
                rl_count := Suc (rl_count w),
                rl_open := insert (rl_count w) (rl_open w)\<rparr>)"
  using assms by (simp add: prompt_defs)

lemma prompt_empty_key:
  assumes "stdin w = a # rest" and "trim a = []"
  shows "promptForOpenAIConfig w =
    (Rejected key_required,
     w\<lparr>stdin := rest,
       trace := trace w @ [ConsoleLog welcome_banner, ConsoleLog configure_banner,
                          Question (rl_count w) question_key],
       rl_count := Suc (rl_count w),
       rl_open := insert (rl_count w) (rl_open w) - {rl_count w}\<rparr>)"
  using assms by (simp add: prompt_defs)

lemma prompt_one_answer:
  assumes "stdin w = [a1]" and "trim a1 \<noteq> []"
  shows "promptForOpenAIConfig w =
    (Pending,
     w\<lparr>stdin := [],
       trace := trace w @ [ConsoleLog welcome_banner, ConsoleLog configure_banner,
                          Question (rl_count w) question_key,
                          Question (rl_count w) question_url],
       rl_count := Suc (rl_count w),
       rl_open := insert (rl_count w) (rl_open w)\<rparr>)"
  using assms by (simp add: prompt_defs)

lemma prompt_two_answers:
  assumes "stdin w = [a1, a2]" and "trim a1 \<noteq> []"
  shows "promptForOpenAIConfig w =
    (Pending,
     w\<lparr>stdin := [],
       trace := trace w @ [ConsoleLog welcome_banner, ConsoleLog configure_banner,
                          Question (rl_count w) question_key,
                          Question (rl_count w) question_url,
                          Question (rl_count w) question_model],
       rl_count := Suc (rl_count w),
       rl_open := insert (rl_count w) (rl_open w)\<rparr>)"
  using assms by (simp add: prompt_defs)

lemma prompt_three_answers:
  assumes "stdin w = a1 # a2 # a3 # rest" and "trim a1 \<noteq> []"
  shows "promptForOpenAIConfig w =
    (Resolved \<lparr>openaiApiKey = trim a1,
               openaiBaseUrl = or_default (trim a2) default_url,
               openaiModel = or_default (trim a3) default_model\<rparr>,
     w\<lparr>stdin := rest,
       trace := trace w @ [ConsoleLog welcome_banner, ConsoleLog configure_banner,
                          Question (rl_count w) question_key,
                          Question (rl_count w) question_url,
                          Question (rl_count w) question_model],
       rl_count := Suc (rl_count w),
       rl_open := insert (rl_count w) (rl_open w) - {rl_count w}\<rparr>)"
  using assms by (simp add: prompt_defs)

lemma stdin_shape:
  obtains (none) "stdin w = []"
  | (empty_key) a rest where "stdin w = a # rest" "trim a = []"
  | (one) a1 where "stdin w = [a1]" "trim a1 \<noteq> []"
  | (two) a1 a2 where "stdin w = [a1, a2]" "trim a1 \<noteq> []"
  | (three) a1 a2 a3 rest where "stdin w = a1 # a2 # a3 # rest" "trim a1 \<noteq> []"
proof (cases "stdin w")
  case Nil
  then show ?thesis by (rule none)
next
  case (Cons a1 r1)
  show ?thesis
  proof (cases "trim a1 = []")
    case True
    with Cons show ?thesis by (rule empty_key)
  next
    case False
    show ?thesis
    proof (cases r1)
      case Nil
      with Cons False show ?thesis by (intro one) simp_all
    next
      case c2: (Cons a2 r2)
      show ?thesis
      proof (cases r2)
        case Nil
        with Cons c2 False show ?thesis by (intro two) simp_all
      next
        case c3: (Cons a3 r3)
        with Cons c2 False show ?thesis by (intro three) simp_all
      qed
    qed
  qed
qed

lemma prompt_Resolved_D:
  assumes "fst (promptForOpenAIConfig w) = Resolved cfg"
  shows "\<exists>a1 a2 a3 rest. stdin w = a1 # a2 # a3 # rest \<and> trim a1 \<noteq> [] \<and>
           cfg = \<lparr>openaiApiKey = trim a1,
                  openaiBaseUrl = or_default (trim a2) default_url,
                  openaiModel = or_default (trim a3) default_model\<rparr>"
proof (cases w rule: stdin_shape)
  case none
  with assms show ?thesis by (simp add: prompt_no_input)
next
  case (empty_key a rest)
  with assms show ?thesis by (simp add: prompt_empty_key)
next
  case (one a1)
  with assms show ?thesis by (simp add: prompt_one_answer)
next
  case (two a1 a2)
  with assms show ?thesis by (simp add: prompt_two_answers)
next
  case (three a1 a2 a3 rest)
  with assms show ?thesis by (simp add: prompt_three_answers)
qed

lemma prompt_Rejected_D:
  assumes "fst (promptForOpenAIConfig w) = Rejected e"
  shows "e = key_required \<and> (\<exists>a rest. stdin w = a # rest \<and> trim a = [])"
proof (cases w rule: stdin_shape)
  case none
  with assms show ?thesis by (simp add: prompt_no_input)
next
  case (empty_key a rest)
  with assms show ?thesis by (simp add: prompt_empty_key)
next
  case (one a1)
  with assms show ?thesis by (simp add: prompt_one_answer)
next
  case (two a1 a2)
  with assms show ?thesis by (simp add: prompt_two_answers)
next
  case (three a1 a2 a3 rest)
  with assms show ?thesis by (simp add: prompt_three_answers)
qed

lemma prompt_not_Exited: "fst (promptForOpenAIConfig w) \<noteq> Exited c"
proof (cases w rule: stdin_shape)
  case none
  then show ?thesis by (simp add: prompt_no_input)
next
  case (empty_key a rest)
  then show ?thesis by (simp add: prompt_empty_key)
next
  case (one a1)
  then show ?thesis by (simp add: prompt_one_answer)
next
  case (two a1 a2)
  then show ?thesis by (simp add: prompt_two_answers)
next
  case (three a1 a2 a3 rest)
  then show ?thesis by (simp add: prompt_three_answers)
qed

subsection \<open>The flow, by the outcome of the prompt\<close>

lemma setter_calls_append: "setter_calls (xs @ ys) = setter_calls xs @ setter_calls ys"
  by (induction xs rule: setter_calls.induct) simp_all

lemma questions_append: "questions (xs @ ys) = questions xs @ questions ys"
  by (induction xs rule: questions.induct) simp_all

lemma isFirstRun_shouldRun:
  "isFirstRun ls w = shouldRun (settings (user ls) ''openaiApiKey'') (env w ''OPENAI_API_KEY'')"
  by (simp add: isFirstRun_def shouldRun_def absent_def falsy_def split: option.splits)

lemma handle_skip:
  assumes "\<not> isFirstRun ls w"
  shows "handleFirstRunSetup ls w = (Resolved (), ls, w)"
  using assms by (simp add: handleFirstRunSetup_def)

lemma setValue_User:
  "setValue User key v (ls, w) =
     (ls\<lparr>user := (user ls)\<lparr>settings := (settings (user ls))(key \<mapsto> v)\<rparr>\<rparr>,
      w\<lparr>trace := trace w @ [SetValue User key v]\<rparr>)"
  by (simp add: setValue_def forScope_def emit_def Let_def)

lemma handle_resolved:
  assumes "isFirstRun ls w" and "promptForOpenAIConfig w = (Resolved cfg, w1)"
  shows "handleFirstRunSetup ls w =
    (Resolved (),
     ls\<lparr>user := (user ls)\<lparr>settings := (settings (user ls))
         (''openaiApiKey'' \<mapsto> openaiApiKey cfg,
          ''openaiBaseUrl'' \<mapsto> openaiBaseUrl cfg,
          ''openaiModel'' \<mapsto> openaiModel cfg)\<rparr>\<rparr>,
     w1\<lparr>trace := trace w1 @
        [SetValue User ''openaiApiKey'' (openaiApiKey cfg),
         SetValue User ''openaiBaseUrl'' (openaiBaseUrl cfg),
         SetValue User ''openaiModel'' (openaiModel cfg),
         ConsoleLog saved_banner,
         ConsoleLog (saved_to (path (user ls)))]\<rparr>)"
  using assms
  by (simp add: handleFirstRunSetup_def setValue_User emit_def console_log_def)

lemma handle_rejected:
  assumes "isFirstRun ls w" and "promptForOpenAIConfig w = (Rejected e, w1)"
  shows "handleFirstRunSetup ls w =
    (Exited 1, ls, w1\<lparr>trace := trace w1 @ [ConsoleError failed_banner e]\<rparr>)"
  using assms by (simp add: handleFirstRunSetup_def console_error_def emit_def)

lemma handle_pending:
  assumes "isFirstRun ls w" and "promptForOpenAIConfig w = (Pending, w1)"
  shows "handleFirstRunSetup ls w = (Pending, ls, w1)"
  using assms by (simp add: handleFirstRunSetup_def)

lemma prompt_setter_calls:
  "setter_calls (trace (snd (promptForOpenAIConfig w))) = setter_calls (trace w)"
proof (cases w rule: stdin_shape)
  case none
  then show ?thesis by (simp add: prompt_no_input setter_calls_append)
next
  case (empty_key a rest)
  then show ?thesis by (simp add: prompt_empty_key setter_calls_append)
next
  case (one a1)
  then show ?thesis by (simp add: prompt_one_answer setter_calls_append)
next
  case (two a1 a2)
  then show ?thesis by (simp add: prompt_two_answers setter_calls_append)
next
  case (three a1 a2 a3 rest)
  then show ?thesis by (simp add: prompt_three_answers setter_calls_append)
qed

subsection \<open>Evaluation of the literals\<close>

lemmas literal_defs =
  key_required_def default_url_def default_model_def or_default_def

lemmas eval_defs = js_def trim_def isWhiteSpace_def process_start_def stored_settings_def

section \<open>The claims\<close>

subsection \<open>C1: an empty API key\<close>

text \<open>
  C1, as the specification states it: when the trimmed answer to the first question is
  empty, the prompt fails at once with an error whose message is "API key is required".
  The message of the error thrown by the code is another literal: at the input consisting
  of one empty line the prompt rejects with "OpenAI API Key is required".
\<close>

theorem empty_key_message_counterexample:
  "fst (promptForOpenAIConfig (process_start [js ''''] Map.empty))
     = Rejected (Error (js ''OpenAI API Key is required'')) \<and>
   fst (promptForOpenAIConfig (process_start [js ''''] Map.empty))
     \<noteq> Rejected (Error (js ''API key is required''))"
proof -
  let ?w = "process_start [js ''''] Map.empty"
  have s: "stdin ?w = js '''' # []"
    by (simp add: process_start_def)
  have t: "trim (js '''') = []"
    by (simp add: js_def trim_def)
  have r: "fst (promptForOpenAIConfig ?w) = Rejected key_required"
    by (simp only: prompt_empty_key [OF s t] fst_conv)
  show ?thesis
    unfolding r by (simp add: key_required_def js_def)
qed

text \<open>
  C1, amended: for every run of \<open>promptForOpenAIConfig\<close>, if the trimmed answer to the
  first question (API key) is empty, the operation fails immediately with an error
  carrying the message "OpenAI API Key is required" and asks no further question (the key
  question is the only query added to the trace, and the lines after the first stay
  unread); and every config it returns successfully has a non-empty \<open>openaiApiKey\<close>.
\<close>

theorem empty_key_rejected:
  "(stdin w = a # rest \<and> trim a = [] \<longrightarrow>
      fst (promptForOpenAIConfig w) = Rejected (Error (js ''OpenAI API Key is required'')) \<and>
      questions (trace (snd (promptForOpenAIConfig w))) = questions (trace w) @ [question_key] \<and>
      stdin (snd (promptForOpenAIConfig w)) = rest) \<and>
   (fst (promptForOpenAIConfig w) = Resolved cfg \<longrightarrow> openaiApiKey cfg \<noteq> [])"
proof (intro conjI impI)
  assume h: "stdin w = a # rest \<and> trim a = []"
  then have s: "stdin w = a # rest" and t: "trim a = []" by blast+
  note p = prompt_empty_key [OF s t]
  show "fst (promptForOpenAIConfig w) = Rejected (Error (js ''OpenAI API Key is required''))"
    by (simp add: p key_required_def)
  show "questions (trace (snd (promptForOpenAIConfig w))) = questions (trace w) @ [question_key]"
    by (simp add: p questions_append)
  show "stdin (snd (promptForOpenAIConfig w)) = rest"
    by (simp add: p)
next
  assume "fst (promptForOpenAIConfig w) = Resolved cfg"
  then obtain a1 a2 a3 where "trim a1 \<noteq> []" and
    "cfg = \<lparr>openaiApiKey = trim a1,
            openaiBaseUrl = or_default (trim a2) default_url,
            openaiModel = or_default (trim a3) default_model\<rparr>"
    using prompt_Resolved_D by blast
  then show "openaiApiKey cfg \<noteq> []" by simp
qed

theorem empty_key_rejected_witness:
  "stdin (process_start [js '' '', js ''x''] Map.empty) = js '' '' # [js ''x''] \<and>
   trim (js '' '') = [] \<and>
   fst (promptForOpenAIConfig (process_start [js '' '', js ''x''] Map.empty))
     = Rejected (Error (js ''OpenAI API Key is required'')) \<and>
   questions (trace (snd (promptForOpenAIConfig (process_start [js '' '', js ''x''] Map.empty))))
     = [question_key] \<and>
   stdin (snd (promptForOpenAIConfig (process_start [js '' '', js ''x''] Map.empty))) = [js ''x''] \<and>
   fst (promptForOpenAIConfig (process_start [js ''sk-test'', js '''', js ''''] Map.empty))
     = Resolved \<lparr>openaiApiKey = js ''sk-test'', openaiBaseUrl = default_url,
                 openaiModel = default_model\<rparr> \<and>
   openaiApiKey \<lparr>openaiApiKey = js ''sk-test'', openaiBaseUrl = default_url,
                 openaiModel = default_model\<rparr> \<noteq> []"
proof -
  let ?w = "process_start [js '' '', js ''x''] Map.empty"
  let ?v = "process_start [js ''sk-test'', js '''', js ''''] Map.empty"
  let ?cfg = "\<lparr>openaiApiKey = js ''sk-test'', openaiBaseUrl = default_url,
                 openaiModel = default_model\<rparr>"
  have h1: "stdin ?w = js '' '' # [js ''x'']" by (simp add: process_start_def)
  have h2: "trim (js '' '') = []" by (simp add: eval_defs)
  have h3: "fst (promptForOpenAIConfig ?v) = Resolved ?cfg"
    by (simp add: prompt_defs eval_defs literal_defs)
  have t: "questions (trace ?w) = []" by (simp add: process_start_def)
  note empty_key_rejected [of ?w "js '' ''" "[js ''x'']" ?cfg]
    empty_key_rejected [of ?v "[]" "[]" ?cfg]
  with h1 h2 h3 t show ?thesis by simp
qed

subsection \<open>C2: when the first-run flow is due\<close>

text \<open>
  C2, as the specification states it: \<open>shouldRun(storedKey, envKey)\<close> is a pure predicate
  that takes the stored key and the environment key as its two explicit inputs. The
  function of the code, \<open>isFirstRun(settings)\<close>, has the settings object as its only
  argument and reads \<open>OPENAI_API_KEY\<close> from the environment of the process: for one and
  the same argument (no stored key) it answers true in a process without the variable and
  false in a process where the variable is set, so its result is not determined by what
  it is given.
\<close>

theorem isFirstRun_reads_environment_counterexample:
  "isFirstRun (stored_settings Map.empty) (process_start [] Map.empty) \<and>
   \<not> isFirstRun (stored_settings Map.empty)
       (process_start [] [''OPENAI_API_KEY'' \<mapsto> js ''sk-env''])"
  by (simp add: isFirstRun_def falsy_def eval_defs)

text \<open>
  C2, amended: \<open>isFirstRun(settings)\<close> takes the settings object as its argument and reads
  the environment variable \<open>OPENAI_API_KEY\<close> from the process. On the API key stored in
  the user settings and the value of that variable it is the predicate \<open>shouldRun\<close> of
  the specification: it is true if and only if both are absent or empty, and false
  whenever either one is present and non-empty. It returns nothing but this truth value
  (it changes neither the store nor the world).
\<close>

theorem isFirstRun_iff_both_absent:
  "isFirstRun ls w = shouldRun (settings (user ls) ''openaiApiKey'') (env w ''OPENAI_API_KEY'') \<and>
   (isFirstRun ls w \<longleftrightarrow>
      (settings (user ls) ''openaiApiKey'' = None \<or> settings (user ls) ''openaiApiKey'' = Some []) \<and>
      (env w ''OPENAI_API_KEY'' = None \<or> env w ''OPENAI_API_KEY'' = Some [])) \<and>
   ((\<exists>k. k \<noteq> [] \<and> (settings (user ls) ''openaiApiKey'' = Some k \<or> env w ''OPENAI_API_KEY'' = Some k))
      \<longrightarrow> \<not> isFirstRun ls w)"
  by (auto simp: isFirstRun_def shouldRun_def absent_def falsy_def split: option.splits)

theorem isFirstRun_iff_both_absent_witness:
  "(\<exists>k. k \<noteq> [] \<and>
      (settings (user (stored_settings Map.empty)) ''openaiApiKey'' = Some k \<or>
       env (process_start [] [''OPENAI_API_KEY'' \<mapsto> js ''sk-env'']) ''OPENAI_API_KEY'' = Some k)) \<and>
   \<not> isFirstRun (stored_settings Map.empty) (process_start [] [''OPENAI_API_KEY'' \<mapsto> js ''sk-env'']) \<and>
   isFirstRun (stored_settings Map.empty) (process_start [] Map.empty) \<and>
   isFirstRun (stored_settings [''openaiApiKey'' \<mapsto> []]) (process_start [] [''OPENAI_API_KEY'' \<mapsto> []]) \<and>
   \<not> isFirstRun (stored_settings [''openaiApiKey'' \<mapsto> js ''sk-stored'']) (process_start [] Map.empty)"
proof -
  let ?ls = "stored_settings Map.empty"
  let ?w = "process_start [] [''OPENAI_API_KEY'' \<mapsto> js ''sk-env'']"
  have h: "\<exists>k. k \<noteq> [] \<and>
      (settings (user ?ls) ''openaiApiKey'' = Some k \<or> env ?w ''OPENAI_API_KEY'' = Some k)"
    by (simp add: eval_defs)
  from isFirstRun_iff_both_absent [of ?ls ?w] h
  have a: "\<not> isFirstRun ?ls ?w" by blast
  have b: "isFirstRun ?ls (process_start [] Map.empty)"
    by (simp add: isFirstRun_def falsy_def eval_defs)
  have c: "isFirstRun (stored_settings [''openaiApiKey'' \<mapsto> []])
             (process_start [] [''OPENAI_API_KEY'' \<mapsto> []])"
    by (simp add: isFirstRun_def falsy_def eval_defs)
  have d: "\<not> isFirstRun (stored_settings [''openaiApiKey'' \<mapsto> js ''sk-stored''])
             (process_start [] Map.empty)"
    by (simp add: isFirstRun_def falsy_def eval_defs)
  from h a b c d show ?thesis by blast
qed

subsection \<open>C3: the defaults\<close>

text \<open>
  C3: \<open>promptForOpenAIConfig\<close> substitutes the literal \<open>https://api.openai.com/v1\<close> when
  the trimmed base-URL answer is empty and the literal \<open>gpt-4\<close> when the trimmed model
  answer is empty. For the input lines "sk-test", "", "" it returns the key with both
  defaults; for "sk-test", "https://custom/v1", "custom-model" it returns the three values
  as they are.
\<close>

theorem prompt_defaults:
  "(stdin w = a1 # a2 # a3 # rest \<and> trim a1 \<noteq> [] \<longrightarrow>
      fst (promptForOpenAIConfig w) =
        Resolved \<lparr>openaiApiKey = trim a1,
                  openaiBaseUrl = (if trim a2 = [] then js ''https://api.openai.com/v1'' else trim a2),
                  openaiModel = (if trim a3 = [] then js ''gpt-4'' else trim a3)\<rparr>) \<and>
   fst (promptForOpenAIConfig (w\<lparr>stdin := [js ''sk-test'', js '''', js '''']\<rparr>)) =
     Resolved \<lparr>openaiApiKey = js ''sk-test'',
               openaiBaseUrl = js ''https://api.openai.com/v1'',
               openaiModel = js ''gpt-4''\<rparr> \<and>
   fst (promptForOpenAIConfig (w\<lparr>stdin := [js ''sk-test'', js ''https://custom/v1'', js ''custom-model'']\<rparr>)) =
     Resolved \<lparr>openaiApiKey = js ''sk-test'',
               openaiBaseUrl = js ''https://custom/v1'',
               openaiModel = js ''custom-model''\<rparr>"
proof (intro conjI impI)
  assume "stdin w = a1 # a2 # a3 # rest \<and> trim a1 \<noteq> []"
  then have s: "stdin w = a1 # a2 # a3 # rest" and t: "trim a1 \<noteq> []" by blast+
  show "fst (promptForOpenAIConfig w) =
        Resolved \<lparr>openaiApiKey = trim a1,
                  openaiBaseUrl = (if trim a2 = [] then js ''https://api.openai.com/v1'' else trim a2),
                  openaiModel = (if trim a3 = [] then js ''gpt-4'' else trim a3)\<rparr>"
    by (simp add: prompt_three_answers [OF s t] literal_defs)
next
  have k: "trim (js ''sk-test'') = js ''sk-test''" by (simp add: eval_defs)
  have e: "trim (js '''') = []" by (simp add: eval_defs)
  have ne: "js ''sk-test'' \<noteq> []" by (simp add: js_def)
  show "fst (promptForOpenAIConfig (w\<lparr>stdin := [js ''sk-test'', js '''', js '''']\<rparr>)) =
     Resolved \<lparr>openaiApiKey = js ''sk-test'',
               openaiBaseUrl = js ''https://api.openai.com/v1'',
               openaiModel = js ''gpt-4''\<rparr>"
    by (simp add: prompt_defs literal_defs k e ne)
next
  have k: "trim (js ''sk-test'') = js ''sk-test''" by (simp add: eval_defs)
  have u: "trim (js ''https://custom/v1'') = js ''https://custom/v1''" by (simp add: eval_defs)
  have m: "trim (js ''custom-model'') = js ''custom-model''" by (simp add: eval_defs)
  have ne: "js ''sk-test'' \<noteq> []" "js ''https://custom/v1'' \<noteq> []" "js ''custom-model'' \<noteq> []"
    by (simp_all add: js_def)
  show "fst (promptForOpenAIConfig (w\<lparr>stdin := [js ''sk-test'', js ''https://custom/v1'', js ''custom-model'']\<rparr>)) =
     Resolved \<lparr>openaiApiKey = js ''sk-test'',
               openaiBaseUrl = js ''https://custom/v1'',
               openaiModel = js ''custom-model''\<rparr>"
    by (simp add: prompt_defs literal_defs k u m ne)
qed

theorem prompt_defaults_witness:
  "stdin (process_start [js ''sk-live'', js ''  '', js ''qwen-max'', js ''more''] Map.empty)
     = js ''sk-live'' # js ''  '' # js ''qwen-max'' # [js ''more''] \<and>
   trim (js ''sk-live'') \<noteq> [] \<and>
   fst (promptForOpenAIConfig (process_start [js ''sk-live'', js ''  '', js ''qwen-max'', js ''more''] Map.empty)) =
     Resolved \<lparr>openaiApiKey = js ''sk-live'',
               openaiBaseUrl = js ''https://api.openai.com/v1'',
               openaiModel = js ''qwen-max''\<rparr>"
proof -
  let ?w = "process_start [js ''sk-live'', js ''  '', js ''qwen-max'', js ''more''] Map.empty"
  have s: "stdin ?w = js ''sk-live'' # js ''  '' # js ''qwen-max'' # [js ''more'']"
    by (simp add: process_start_def)
  have k: "trim (js ''sk-live'') = js ''sk-live''" by (simp add: eval_defs)
  have u: "trim (js ''  '') = []" by (simp add: eval_defs)
  have m: "trim (js ''qwen-max'') = js ''qwen-max''" by (simp add: eval_defs)
  have ne: "js ''sk-live'' \<noteq> []" "js ''qwen-max'' \<noteq> []" by (simp_all add: js_def)
  from prompt_defaults [of ?w "js ''sk-live''" "js ''  ''" "js ''qwen-max''" "[js ''more'']"]
  have "stdin ?w = js ''sk-live'' # js ''  '' # js ''qwen-max'' # [js ''more''] \<and>
          trim (js ''sk-live'') \<noteq> [] \<longrightarrow>
        fst (promptForOpenAIConfig ?w) =
          Resolved \<lparr>openaiApiKey = trim (js ''sk-live''),
             openaiBaseUrl = (if trim (js ''  '') = [] then js ''https://api.openai.com/v1'' else trim (js ''  '')),
             openaiModel = (if trim (js ''qwen-max'') = [] then js ''gpt-4'' else trim (js ''qwen-max''))\<rparr>"
    by (rule conjunct1)
  with s k u m ne show ?thesis by simp
qed

subsection \<open>C4: a successful setup\<close>

text \<open>
  C4: on every successful setup (the flow was due and \<open>handleFirstRunSetup\<close> returns),
  the prompt returned a config, and after it the flow calls the setter exactly three
  times, once per field and each time for the user scope, under the keys
  \<open>openaiApiKey\<close>, \<open>openaiBaseUrl\<close> and \<open>openaiModel\<close>, and then prints the success
  message and a message that contains the path of the user-scope settings file. These
  three calls are all the setter calls of the run.
\<close>

theorem setup_success_three_writes:
  assumes "isFirstRun ls w" and "fst (handleFirstRunSetup ls w) = Resolved ()"
  shows "\<exists>cfg w1.
     promptForOpenAIConfig w = (Resolved cfg, w1) \<and>
     trace (snd (snd (handleFirstRunSetup ls w))) =
       trace w1 @
       [SetValue User ''openaiApiKey'' (openaiApiKey cfg),
        SetValue User ''openaiBaseUrl'' (openaiBaseUrl cfg),
        SetValue User ''openaiModel'' (openaiModel cfg),
        ConsoleLog saved_banner,
        ConsoleLog (js ''Settings saved to: '' @ path (user (fst (snd (handleFirstRunSetup ls w)))) @ [0x000A])] \<and>
     setter_calls (trace (snd (snd (handleFirstRunSetup ls w)))) =
       setter_calls (trace w) @
       [(User, ''openaiApiKey'', openaiApiKey cfg),
        (User, ''openaiBaseUrl'', openaiBaseUrl cfg),
        (User, ''openaiModel'', openaiModel cfg)] \<and>
     length (setter_calls (trace (snd (snd (handleFirstRunSetup ls w))))) =
       length (setter_calls (trace w)) + 3 \<and>
     path (user (fst (snd (handleFirstRunSetup ls w)))) = path (user ls)"
proof -
  obtain r w1 where p: "promptForOpenAIConfig w = (r, w1)"
    by (cases "promptForOpenAIConfig w")
  have c: "setter_calls (trace w1) = setter_calls (trace w)"
    using prompt_setter_calls [of w] by (simp add: p)
  show ?thesis
  proof (cases r)
    case (Resolved cfg)
    note h = handle_resolved [OF assms(1) p [unfolded Resolved]]
    have "trace (snd (snd (handleFirstRunSetup ls w))) =
       trace w1 @
       [SetValue User ''openaiApiKey'' (openaiApiKey cfg),
        SetValue User ''openaiBaseUrl'' (openaiBaseUrl cfg),
        SetValue User ''openaiModel'' (openaiModel cfg),
        ConsoleLog saved_banner,
        ConsoleLog (js ''Settings saved to: '' @ path (user (fst (snd (handleFirstRunSetup ls w)))) @ [0x000A])]"
      by (simp add: h saved_to_def)
    moreover have "setter_calls (trace (snd (snd (handleFirstRunSetup ls w)))) =
       setter_calls (trace w) @
       [(User, ''openaiApiKey'', openaiApiKey cfg),
        (User, ''openaiBaseUrl'', openaiBaseUrl cfg),
        (User, ''openaiModel'', openaiModel cfg)]"
      by (simp add: h setter_calls_append c)
    moreover have "path (user (fst (snd (handleFirstRunSetup ls w)))) = path (user ls)"
      by (simp add: h)
    ultimately show ?thesis
      using p Resolved by simp
  next
    case (Rejected e)
    with assms show ?thesis
      by (simp add: handle_rejected [OF assms(1) p [unfolded Rejected]])
  next
    case Pending
    with assms show ?thesis
      by (simp add: handle_pending [OF assms(1) p [unfolded Pending]])
  next
    case (Exited n)
    with p prompt_not_Exited [of w n] show ?thesis by simp
  qed
qed

theorem setup_success_three_writes_witness:
  "isFirstRun (stored_settings Map.empty)
     (process_start [js ''sk-test'', js [], js ''qwen-max''] Map.empty) \<and>
   fst (handleFirstRunSetup (stored_settings Map.empty)
     (process_start [js ''sk-test'', js [], js ''qwen-max''] Map.empty)) = Resolved () \<and>
   setter_calls (trace (snd (snd (handleFirstRunSetup (stored_settings Map.empty)
       (process_start [js ''sk-test'', js [], js ''qwen-max''] Map.empty))))) =
     [(User, ''openaiApiKey'', js ''sk-test''),
      (User, ''openaiBaseUrl'', js ''https://api.openai.com/v1''),
      (User, ''openaiModel'', js ''qwen-max'')]"
proof -
  let ?ls = "stored_settings Map.empty"
  let ?w = "process_start [js ''sk-test'', js [], js ''qwen-max''] Map.empty"
  have f: "isFirstRun ?ls ?w"
    by (simp add: isFirstRun_def falsy_def eval_defs)
  have s: "stdin ?w = js ''sk-test'' # js [] # js ''qwen-max'' # []"
    by (simp add: process_start_def)
  have k: "trim (js ''sk-test'') \<noteq> []" by (simp add: eval_defs)
  note p3 = prompt_three_answers [OF s k]
  have r: "fst (handleFirstRunSetup ?ls ?w) = Resolved ()"
    by (simp add: handle_resolved [OF f p3])
  have t: "setter_calls (trace ?w) = []" by (simp add: process_start_def)
  from setup_success_three_writes [OF f r]
  obtain cfg w1 where p: "promptForOpenAIConfig ?w = (Resolved cfg, w1)" and
    sc: "setter_calls (trace (snd (snd (handleFirstRunSetup ?ls ?w)))) =
       setter_calls (trace ?w) @
       [(User, ''openaiApiKey'', openaiApiKey cfg),
        (User, ''openaiBaseUrl'', openaiBaseUrl cfg),
        (User, ''openaiModel'', openaiModel cfg)]"
    by blast
  from p p3 have cfg: "cfg = \<lparr>openaiApiKey = trim (js ''sk-test''),
               openaiBaseUrl = or_default (trim (js [])) default_url,
               openaiModel = or_default (trim (js ''qwen-max'')) default_model\<rparr>"
    by simp
  have v: "openaiApiKey cfg = js ''sk-test''"
    "openaiBaseUrl cfg = js ''https://api.openai.com/v1''"
    "openaiModel cfg = js ''qwen-max''"
    unfolding cfg by (simp_all add: eval_defs literal_defs)
  from sc have "setter_calls (trace (snd (snd (handleFirstRunSetup ?ls ?w)))) =
     [(User, ''openaiApiKey'', js ''sk-test''),
      (User, ''openaiBaseUrl'', js ''https://api.openai.com/v1''),
      (User, ''openaiModel'', js ''qwen-max'')]"
    by (simp only: t v append_Nil)
  with f r show ?thesis by blast
qed

subsection \<open>C5: a failing setup\<close>

text \<open>
  C5: on every failing setup (the flow was due and the prompt raised an error, as it does
  for an empty API key), \<open>handleFirstRunSetup\<close> never calls the setter and leaves the
  store as it was, prints the failure message with the error to standard error as its
  last action, and terminates the process with the non-zero status 1.
\<close>

theorem setup_failure_exits:
  assumes "isFirstRun ls w" and "fst (promptForOpenAIConfig w) = Rejected e"
  shows "handleFirstRunSetup ls w =
           (Exited 1, ls, console_error failed_banner e (snd (promptForOpenAIConfig w))) \<and>
         (\<exists>c. fst (handleFirstRunSetup ls w) = Exited c \<and> c \<noteq> 0) \<and>
         setter_calls (trace (snd (snd (handleFirstRunSetup ls w)))) = setter_calls (trace w) \<and>
         trace (snd (snd (handleFirstRunSetup ls w))) =
           trace (snd (promptForOpenAIConfig w)) @ [ConsoleError failed_banner e] \<and>
         fst (snd (handleFirstRunSetup ls w)) = ls"
proof -
  obtain w1 where p: "promptForOpenAIConfig w = (Rejected e, w1)"
    using assms(2) by (cases "promptForOpenAIConfig w") simp
  note h = handle_rejected [OF assms(1) p]
  have c: "setter_calls (trace w1) = setter_calls (trace w)"
    using prompt_setter_calls [of w] by (simp add: p)
  have "handleFirstRunSetup ls w =
           (Exited 1, ls, console_error failed_banner e (snd (promptForOpenAIConfig w)))"
    by (simp add: h p console_error_def emit_def)
  moreover have "\<exists>c. fst (handleFirstRunSetup ls w) = Exited c \<and> c \<noteq> 0"
    by (simp add: h)
  moreover have "setter_calls (trace (snd (snd (handleFirstRunSetup ls w)))) = setter_calls (trace w)"
    by (simp add: h setter_calls_append c)
  moreover have "trace (snd (snd (handleFirstRunSetup ls w))) =
           trace (snd (promptForOpenAIConfig w)) @ [ConsoleError failed_banner e]"
    by (simp add: h p)
  moreover have "fst (snd (handleFirstRunSetup ls w)) = ls"
    by (simp add: h)
  ultimately show ?thesis by blast
qed

theorem setup_failure_exits_witness:
  "isFirstRun (stored_settings Map.empty) (process_start [js ''   ''] Map.empty) \<and>
   fst (promptForOpenAIConfig (process_start [js ''   ''] Map.empty)) = Rejected key_required \<and>
   fst (handleFirstRunSetup (stored_settings Map.empty) (process_start [js ''   ''] Map.empty))
     = Exited 1 \<and>
   setter_calls (trace (snd (snd (handleFirstRunSetup (stored_settings Map.empty)
     (process_start [js ''   ''] Map.empty))))) = [] \<and>
   fst (snd (handleFirstRunSetup (stored_settings Map.empty) (process_start [js ''   ''] Map.empty)))
     = stored_settings Map.empty"
proof -
  let ?ls = "stored_settings Map.empty"
  let ?w = "process_start [js ''   ''] Map.empty"
  have f: "isFirstRun ?ls ?w"
    by (simp add: isFirstRun_def falsy_def eval_defs)
  have s: "stdin ?w = js ''   '' # []"
    by (simp add: process_start_def)
  have k: "trim (js ''   '') = []" by (simp add: eval_defs)
  have r: "fst (promptForOpenAIConfig ?w) = Rejected key_required"
    by (simp only: prompt_empty_key [OF s k] fst_conv)
  have t: "setter_calls (trace ?w) = []" by (simp add: process_start_def)
  note th = setup_failure_exits [OF f r]
  from th have "\<exists>c. fst (handleFirstRunSetup ?ls ?w) = Exited c \<and> c \<noteq> 0"
    by blast
  from th have "handleFirstRunSetup ?ls ?w =
      (Exited 1, ?ls, console_error failed_banner key_required (snd (promptForOpenAIConfig ?w)))"
    by blast
  then have a: "fst (handleFirstRunSetup ?ls ?w) = Exited 1"
    by (simp only: fst_conv)
  from th have "setter_calls (trace (snd (snd (handleFirstRunSetup ?ls ?w)))) = setter_calls (trace ?w)"
    by blast
  then have b: "setter_calls (trace (snd (snd (handleFirstRunSetup ?ls ?w)))) = []"
    by (simp only: t)
  from th have c: "fst (snd (handleFirstRunSetup ?ls ?w)) = ?ls"
    by blast
  from f r a b c show ?thesis by blast
qed

subsection \<open>C6: nothing happens when a key exists\<close>

text \<open>
  C6: whenever \<open>shouldRun\<close> is false for the stored key and the environment key (one of
  them exists), \<open>handleFirstRunSetup\<close> returns at once: the world is the one it started
  in (nothing was asked, nothing was written, no line was read) and the settings store is
  unchanged, with no call of the setter.
\<close>

theorem setup_skipped_when_key_exists:
  assumes "\<not> shouldRun (settings (user ls) ''openaiApiKey'') (env w ''OPENAI_API_KEY'')"
  shows "handleFirstRunSetup ls w = (Resolved (), ls, w) \<and>
         trace (snd (snd (handleFirstRunSetup ls w))) = trace w \<and>
         stdin (snd (snd (handleFirstRunSetup ls w))) = stdin w \<and>
         setter_calls (trace (snd (snd (handleFirstRunSetup ls w)))) = setter_calls (trace w) \<and>
         fst (snd (handleFirstRunSetup ls w)) = ls"
proof -
  from assms have "\<not> isFirstRun ls w"
    by (simp add: isFirstRun_shouldRun)
  then have "handleFirstRunSetup ls w = (Resolved (), ls, w)"
    by (rule handle_skip)
  then show ?thesis by simp
qed

theorem setup_skipped_when_key_exists_witness:
  "\<not> shouldRun (settings (user (stored_settings [''openaiApiKey'' \<mapsto> js ''sk-stored''])) ''openaiApiKey'')
       (env (process_start [js ''sk-typed''] Map.empty) ''OPENAI_API_KEY'') \<and>
   handleFirstRunSetup (stored_settings [''openaiApiKey'' \<mapsto> js ''sk-stored''])
       (process_start [js ''sk-typed''] Map.empty)
     = (Resolved (), stored_settings [''openaiApiKey'' \<mapsto> js ''sk-stored''],
        process_start [js ''sk-typed''] Map.empty) \<and>
   trace (snd (snd (handleFirstRunSetup (stored_settings [''openaiApiKey'' \<mapsto> js ''sk-stored''])
       (process_start [js ''sk-typed''] Map.empty)))) = []"
proof -
  let ?ls = "stored_settings [''openaiApiKey'' \<mapsto> js ''sk-stored'']"
  let ?w = "process_start [js ''sk-typed''] Map.empty"
  have h: "\<not> shouldRun (settings (user ?ls) ''openaiApiKey'') (env ?w ''OPENAI_API_KEY'')"
    by (simp add: shouldRun_def absent_def eval_defs)
  have t: "trace ?w = []" by (simp add: process_start_def)
  note th = setup_skipped_when_key_exists [OF h]
  from th have a: "handleFirstRunSetup ?ls ?w = (Resolved (), ?ls, ?w)" by blast
  from th have "trace (snd (snd (handleFirstRunSetup ?ls ?w))) = trace ?w" by blast
  then have b: "trace (snd (snd (handleFirstRunSetup ?ls ?w))) = []" by (simp only: t)
  from h a b show ?thesis by blast
qed

subsection \<open>C7: the line reader is released\<close>

text \<open>
  C7: \<open>promptForOpenAIConfig\<close> acquires a line-reading session at its start, and on every
  exit path, whether it returns a config or propagates the error, that session is
  released: it is not among the open sessions afterwards, and the open sessions are those
  that were open before the call. (The function never terminates the process itself.)
\<close>

theorem prompt_releases_line_reader:
  assumes "fst (promptForOpenAIConfig w) = Resolved cfg \<or> fst (promptForOpenAIConfig w) = Rejected e"
  shows "fst (createReadlineInterface w) \<in> rl_open (snd (createReadlineInterface w)) \<and>
         fst (createReadlineInterface w) \<notin> rl_open (snd (promptForOpenAIConfig w)) \<and>
         rl_open (snd (promptForOpenAIConfig w)) = rl_open w - {fst (createReadlineInterface w)}"
proof (cases w rule: stdin_shape)
  case none
  with assms show ?thesis by (simp add: prompt_no_input)
next
  case (empty_key a rest)
  then show ?thesis by (simp add: prompt_empty_key createReadlineInterface_def)
next
  case (one a1)
  with assms show ?thesis by (simp add: prompt_one_answer)
next
  case (two a1 a2)
  with assms show ?thesis by (simp add: prompt_two_answers)
next
  case (three a1 a2 a3 rest)
  then show ?thesis by (simp add: prompt_three_answers createReadlineInterface_def)
qed

theorem prompt_releases_line_reader_witness:
  "(fst (promptForOpenAIConfig (process_start [js ''sk-test'', js '''', js ''''] Map.empty))
      = Resolved \<lparr>openaiApiKey = js ''sk-test'', openaiBaseUrl = default_url, openaiModel = default_model\<rparr>
    \<or> fst (promptForOpenAIConfig (process_start [js ''sk-test'', js '''', js ''''] Map.empty))
      = Rejected key_required) \<and>
   (fst (promptForOpenAIConfig (process_start [js ''''] Map.empty))
      = Resolved \<lparr>openaiApiKey = js ''sk-test'', openaiBaseUrl = default_url, openaiModel = default_model\<rparr>
    \<or> fst (promptForOpenAIConfig (process_start [js ''''] Map.empty))
      = Rejected key_required) \<and>
   rl_open (snd (promptForOpenAIConfig (process_start [js ''sk-test'', js '''', js ''''] Map.empty))) = {} \<and>
   rl_open (snd (promptForOpenAIConfig (process_start [js ''''] Map.empty))) = {}"
proof -
  let ?v = "process_start [js ''sk-test'', js '''', js ''''] Map.empty"
  let ?u = "process_start [js ''''] Map.empty"
  let ?cfg = "\<lparr>openaiApiKey = js ''sk-test'', openaiBaseUrl = default_url,
                 openaiModel = default_model\<rparr>"
  have hv: "fst (promptForOpenAIConfig ?v) = Resolved ?cfg \<or>
            fst (promptForOpenAIConfig ?v) = Rejected key_required"
    by (simp add: prompt_defs eval_defs literal_defs)
  have hu: "fst (promptForOpenAIConfig ?u) = Resolved ?cfg \<or>
            fst (promptForOpenAIConfig ?u) = Rejected key_required"
    by (simp add: prompt_defs eval_defs literal_defs)
  have o: "rl_open ?v = {}" "rl_open ?u = {}" by (simp_all add: process_start_def)
  from prompt_releases_line_reader [OF hv]
  have "rl_open (snd (promptForOpenAIConfig ?v)) = rl_open ?v - {fst (createReadlineInterface ?v)}"
    by blast
  then have a: "rl_open (snd (promptForOpenAIConfig ?v)) = {}"
    by (simp only: o empty_Diff)
  from prompt_releases_line_reader [OF hu]
  have "rl_open (snd (promptForOpenAIConfig ?u)) = rl_open ?u - {fst (createReadlineInterface ?u)}"
    by blast
  then have b: "rl_open (snd (promptForOpenAIConfig ?u)) = {}"
    by (simp only: o empty_Diff)
  from hv hu a b show ?thesis by blast
qed

subsection \<open>C8: answers are trimmed\<close>

text \<open>
  C8: every answer read from standard input is trimmed of surrounding whitespace before
  any use. \<open>askQuestion\<close> resolves with the trimmed line; the trimmed line is the line
  without a whitespace-only prefix and suffix, and it neither starts nor ends with
  whitespace; the emptiness check on the key, the substitution of the defaults and the
  fields of the returned config all use the trimmed lines; and the line "  sk-test  "
  yields "sk-test".
\<close>

theorem answers_are_trimmed:
  "fst (askQuestion rl q (w\<lparr>stdin := a # rest\<rparr>)) = Resolved (trim a) \<and>
   (\<exists>l r. a = l @ trim a @ r \<and> (\<forall>c\<in>set l. isWhiteSpace c) \<and> (\<forall>c\<in>set r. isWhiteSpace c)) \<and>
   (trim a \<noteq> [] \<longrightarrow> \<not> isWhiteSpace (hd (trim a)) \<and> \<not> isWhiteSpace (last (trim a))) \<and>
   fst (promptForOpenAIConfig (w\<lparr>stdin := a1 # a2 # a3 # rest\<rparr>)) =
     (if trim a1 = [] then Rejected key_required
      else Resolved \<lparr>openaiApiKey = trim a1,
                     openaiBaseUrl = (if trim a2 = [] then default_url else trim a2),
                     openaiModel = (if trim a3 = [] then default_model else trim a3)\<rparr>) \<and>
   trim (js ''  sk-test  '') = js ''sk-test''"
proof (intro conjI impI)
  show "fst (askQuestion rl q (w\<lparr>stdin := a # rest\<rparr>)) = Resolved (trim a)"
    by (simp add: askQuestion_def)
  show "\<exists>l r. a = l @ trim a @ r \<and> (\<forall>c\<in>set l. isWhiteSpace c) \<and> (\<forall>c\<in>set r. isWhiteSpace c)"
    by (rule trim_decomp)
  show "fst (promptForOpenAIConfig (w\<lparr>stdin := a1 # a2 # a3 # rest\<rparr>)) =
     (if trim a1 = [] then Rejected key_required
      else Resolved \<lparr>openaiApiKey = trim a1,
                     openaiBaseUrl = (if trim a2 = [] then default_url else trim a2),
                     openaiModel = (if trim a3 = [] then default_model else trim a3)\<rparr>)"
    by (simp add: prompt_defs or_default_def)
  show "trim (js ''  sk-test  '') = js ''sk-test''"
    by (simp add: eval_defs)
next
  assume "trim a \<noteq> []"
  then show "\<not> isWhiteSpace (hd (trim a))" by (rule trim_hd)
next
  assume "trim a \<noteq> []"
  then show "\<not> isWhiteSpace (last (trim a))" by (rule trim_last)
qed

theorem answers_are_trimmed_witness:
  "trim ([0x0009, 0x3000] @ js '' sk key '' @ [0x000D]) = js ''sk key'' \<and>
   trim ([0x0009, 0x3000] @ js '' sk key '' @ [0x000D]) \<noteq> [] \<and>
   \<not> isWhiteSpace (hd (trim ([0x0009, 0x3000] @ js '' sk key '' @ [0x000D]))) \<and>
   \<not> isWhiteSpace (last (trim ([0x0009, 0x3000] @ js '' sk key '' @ [0x000D]))) \<and>
   (\<exists>l r. [0x0009, 0x3000] @ js '' sk key '' @ [0x000D] = l @ js ''sk key'' @ r) \<and>
   fst (promptForOpenAIConfig ((process_start [] Map.empty)
          \<lparr>stdin := ([0x0009, 0x3000] @ js '' sk key '' @ [0x000D]) # js '' '' # js '' m '' # []\<rparr>)) =
     Resolved \<lparr>openaiApiKey = js ''sk key'', openaiBaseUrl = default_url, openaiModel = js ''m''\<rparr>"
proof -
  let ?a = "[0x0009, 0x3000] @ js '' sk key '' @ [0x000D]"
  let ?w = "process_start [] Map.empty"
  have t: "trim ?a = js ''sk key''" by (simp add: eval_defs)
  have u: "trim (js '' '') = []" by (simp add: eval_defs)
  have m: "trim (js '' m '') = js ''m''" by (simp add: eval_defs)
  have ne: "js ''sk key'' \<noteq> []" "js ''m'' \<noteq> []" by (simp_all add: js_def)
  note th = answers_are_trimmed [where rl = 0 and q = question_key and w = ?w and a = ?a
      and rest = "[]" and ?a1.0 = ?a and ?a2.0 = "js '' ''" and ?a3.0 = "js '' m ''"]
  from t ne have n: "trim ?a \<noteq> []" by simp
  from th n have h: "\<not> isWhiteSpace (hd (trim ?a))" and l: "\<not> isWhiteSpace (last (trim ?a))"
    by blast+
  from th have "\<exists>l r. ?a = l @ trim ?a @ r" by blast
  then have d: "\<exists>l r. ?a = l @ js ''sk key'' @ r" by (simp only: t)
  from th have "fst (promptForOpenAIConfig (?w\<lparr>stdin := ?a # js '' '' # js '' m '' # []\<rparr>)) =
     (if trim ?a = [] then Rejected key_required
      else Resolved \<lparr>openaiApiKey = trim ?a,
                     openaiBaseUrl = (if trim (js '' '') = [] then default_url else trim (js '' '')),
                     openaiModel = (if trim (js '' m '') = [] then default_model else trim (js '' m ''))\<rparr>)"
    by blast
  then have p: "fst (promptForOpenAIConfig (?w\<lparr>stdin := ?a # js '' '' # js '' m '' # []\<rparr>)) =
     Resolved \<lparr>openaiApiKey = js ''sk key'', openaiBaseUrl = default_url, openaiModel = js ''m''\<rparr>"
    by (simp only: t u m ne if_True if_False simp_thms)
  from t n h l d p show ?thesis by blast
qed

subsection \<open>C9: whitespace-only answers\<close>

text \<open>
  C9: an answer that consists of whitespace only is treated exactly like an empty answer.
  Its trimmed form is empty; as the answer to the key question it makes the prompt fail
  with the error of the empty key, as the empty line does; as the answer to the base-URL
  or the model question (after a non-empty key) the prompt behaves, in its result and in
  all its effects, as it does for the empty line, and the field holds the fixed default
  literal.
\<close>

theorem whitespace_only_is_empty:
  assumes "\<forall>c\<in>set a. isWhiteSpace c"
  shows "trim a = [] \<and>
    fst (promptForOpenAIConfig (w\<lparr>stdin := a # rest\<rparr>)) = Rejected key_required \<and>
    fst (promptForOpenAIConfig (w\<lparr>stdin := a # rest\<rparr>)) =
      fst (promptForOpenAIConfig (w\<lparr>stdin := [] # rest\<rparr>)) \<and>
    (trim k \<noteq> [] \<longrightarrow>
       promptForOpenAIConfig (w\<lparr>stdin := k # a # m # rest\<rparr>) =
         promptForOpenAIConfig (w\<lparr>stdin := k # [] # m # rest\<rparr>) \<and>
       promptForOpenAIConfig (w\<lparr>stdin := k # u # a # rest\<rparr>) =
         promptForOpenAIConfig (w\<lparr>stdin := k # u # [] # rest\<rparr>) \<and>
       (\<exists>cfg. fst (promptForOpenAIConfig (w\<lparr>stdin := k # a # m # rest\<rparr>)) = Resolved cfg \<and>
              openaiBaseUrl cfg = js ''https://api.openai.com/v1'') \<and>
       (\<exists>cfg. fst (promptForOpenAIConfig (w\<lparr>stdin := k # u # a # rest\<rparr>)) = Resolved cfg \<and>
              openaiModel cfg = js ''gpt-4''))"
proof -
  from assms have t: "trim a = []" by (simp only: trim_eq_Nil_iff)
  have e: "trim [] = []" by (simp add: trim_def)
  have s: "\<And>xs. stdin (w\<lparr>stdin := xs\<rparr>) = xs" by simp
  have 1: "fst (promptForOpenAIConfig (w\<lparr>stdin := a # rest\<rparr>)) = Rejected key_required"
    by (simp only: prompt_empty_key [OF s t] fst_conv)
  have 2: "fst (promptForOpenAIConfig (w\<lparr>stdin := [] # rest\<rparr>)) = Rejected key_required"
    by (simp only: prompt_empty_key [OF s e] fst_conv)
  have 3: "promptForOpenAIConfig (w\<lparr>stdin := k # a # m # rest\<rparr>) =
         promptForOpenAIConfig (w\<lparr>stdin := k # [] # m # rest\<rparr>)"
    and 4: "promptForOpenAIConfig (w\<lparr>stdin := k # u # a # rest\<rparr>) =
         promptForOpenAIConfig (w\<lparr>stdin := k # u # [] # rest\<rparr>)"
    and 5: "\<exists>cfg. fst (promptForOpenAIConfig (w\<lparr>stdin := k # a # m # rest\<rparr>)) = Resolved cfg \<and>
              openaiBaseUrl cfg = js ''https://api.openai.com/v1''"
    and 6: "\<exists>cfg. fst (promptForOpenAIConfig (w\<lparr>stdin := k # u # a # rest\<rparr>)) = Resolved cfg \<and>
              openaiModel cfg = js ''gpt-4''"
    if k: "trim k \<noteq> []"
  proof -
    show "promptForOpenAIConfig (w\<lparr>stdin := k # a # m # rest\<rparr>) =
         promptForOpenAIConfig (w\<lparr>stdin := k # [] # m # rest\<rparr>)"
      by (simp add: prompt_three_answers [OF s k] t e)
    show "promptForOpenAIConfig (w\<lparr>stdin := k # u # a # rest\<rparr>) =
         promptForOpenAIConfig (w\<lparr>stdin := k # u # [] # rest\<rparr>)"
      by (simp add: prompt_three_answers [OF s k] t e)
    show "\<exists>cfg. fst (promptForOpenAIConfig (w\<lparr>stdin := k # a # m # rest\<rparr>)) = Resolved cfg \<and>
              openaiBaseUrl cfg = js ''https://api.openai.com/v1''"
      by (simp add: prompt_three_answers [OF s k] t literal_defs)
    show "\<exists>cfg. fst (promptForOpenAIConfig (w\<lparr>stdin := k # u # a # rest\<rparr>)) = Resolved cfg \<and>
              openaiModel cfg = js ''gpt-4''"
      by (simp add: prompt_three_answers [OF s k] t literal_defs)
  qed
  have 12: "fst (promptForOpenAIConfig (w\<lparr>stdin := a # rest\<rparr>)) =
      fst (promptForOpenAIConfig (w\<lparr>stdin := [] # rest\<rparr>))"
    by (simp only: 1 2)
  from t 1 12 3 4 5 6 show ?thesis by blast
qed

theorem whitespace_only_is_empty_witness:
  "isWhiteSpace 0x0020 \<and> isWhiteSpace 0x0009 \<and> isWhiteSpace 0x00A0 \<and>
   isWhiteSpace 0x2003 \<and> isWhiteSpace 0xFEFF \<and>
   trim [0x0020, 0x0009, 0x00A0, 0x2003, 0xFEFF] = [] \<and>
   fst (promptForOpenAIConfig ((process_start [] Map.empty)
          \<lparr>stdin := [0x0020, 0x0009, 0x00A0, 0x2003, 0xFEFF] # [js ''x'']\<rparr>)) = Rejected key_required \<and>
   trim (js ''sk-test'') \<noteq> [] \<and>
   (\<exists>cfg. fst (promptForOpenAIConfig ((process_start [] Map.empty)
          \<lparr>stdin := js ''sk-test'' # [0x0020, 0x0009, 0x00A0, 0x2003, 0xFEFF] # js ''m'' # [js ''x'']\<rparr>)) = Resolved cfg \<and>
        openaiBaseUrl cfg = js ''https://api.openai.com/v1'') \<and>
   (\<exists>cfg. fst (promptForOpenAIConfig ((process_start [] Map.empty)
          \<lparr>stdin := js ''sk-test'' # js ''u'' # [0x0020, 0x0009, 0x00A0, 0x2003, 0xFEFF] # [js ''x'']\<rparr>)) = Resolved cfg \<and>
        openaiModel cfg = js ''gpt-4'')"
proof -
  let ?a = "[0x0020, 0x0009, 0x00A0, 0x2003, 0xFEFF] :: jsstring"
  let ?w = "process_start [] Map.empty"
  have h: "\<forall>c\<in>set ?a. isWhiteSpace c" by (simp add: isWhiteSpace_def)
  have k: "trim (js ''sk-test'') \<noteq> []" by (simp add: eval_defs)
  note th = whitespace_only_is_empty [OF h, where w = ?w and rest = "[js ''x'']"
      and k = "js ''sk-test''" and m = "js ''m''" and u = "js ''u''"]
  from th have a: "trim ?a = []" by (rule conjunct1)
  from th have b: "fst (promptForOpenAIConfig (?w\<lparr>stdin := ?a # [js ''x'']\<rparr>)) = Rejected key_required"
    by (elim conjE)
  from th k have c: "\<exists>cfg. fst (promptForOpenAIConfig (?w\<lparr>stdin := js ''sk-test'' # ?a # js ''m'' # [js ''x'']\<rparr>)) = Resolved cfg \<and>
        openaiBaseUrl cfg = js ''https://api.openai.com/v1''"
    by (elim conjE impE) assumption+
  from th k have d: "\<exists>cfg. fst (promptForOpenAIConfig (?w\<lparr>stdin := js ''sk-test'' # js ''u'' # ?a # [js ''x'']\<rparr>)) = Resolved cfg \<and>
        openaiModel cfg = js ''gpt-4''"
    by (elim conjE impE) assumption+
  have ws: "isWhiteSpace 0x0020" "isWhiteSpace 0x0009" "isWhiteSpace 0x00A0"
    "isWhiteSpace 0x2003" "isWhiteSpace 0xFEFF"
    by (simp_all add: isWhiteSpace_def)
  from ws a b k c d show ?thesis by (intro conjI)
qed

subsection \<open>C10: what the flow writes\<close>

text \<open>
  C10: every write \<open>handleFirstRunSetup\<close> performs on the settings store targets the user
  scope and one of the three keys \<open>openaiApiKey\<close>, \<open>openaiBaseUrl\<close>, \<open>openaiModel\<close>.
  A run adds either no setter call at all or exactly three, in the order API key, base
  URL, model; the workspace scope, the path of the user-scope file and every other key of
  the user scope are left as they were.
\<close>

theorem writes_only_three_user_keys:
  "(setter_calls (trace (snd (snd (handleFirstRunSetup ls w)))) = setter_calls (trace w) \<or>
    (\<exists>apiKey baseUrl model.
       setter_calls (trace (snd (snd (handleFirstRunSetup ls w)))) =
         setter_calls (trace w) @
         [(User, ''openaiApiKey'', apiKey), (User, ''openaiBaseUrl'', baseUrl),
          (User, ''openaiModel'', model)])) \<and>
   workspace (fst (snd (handleFirstRunSetup ls w))) = workspace ls \<and>
   path (user (fst (snd (handleFirstRunSetup ls w)))) = path (user ls) \<and>
   (\<forall>key. key \<notin> {''openaiApiKey'', ''openaiBaseUrl'', ''openaiModel''} \<longrightarrow>
      settings (user (fst (snd (handleFirstRunSetup ls w)))) key = settings (user ls) key)"
proof (cases "isFirstRun ls w")
  case False
  then have "handleFirstRunSetup ls w = (Resolved (), ls, w)"
    by (rule handle_skip)
  then show ?thesis by simp
next
  case True
  obtain r w1 where p: "promptForOpenAIConfig w = (r, w1)"
    by (cases "promptForOpenAIConfig w")
  have c: "setter_calls (trace w1) = setter_calls (trace w)"
    using prompt_setter_calls [of w] by (simp add: p)
  show ?thesis
  proof (cases r)
    case (Resolved cfg)
    note h = handle_resolved [OF True p [unfolded Resolved]]
    have "setter_calls (trace (snd (snd (handleFirstRunSetup ls w)))) =
         setter_calls (trace w) @
         [(User, ''openaiApiKey'', openaiApiKey cfg), (User, ''openaiBaseUrl'', openaiBaseUrl cfg),
          (User, ''openaiModel'', openaiModel cfg)]"
      by (simp add: h setter_calls_append c)
    then have 1: "\<exists>apiKey baseUrl model.
       setter_calls (trace (snd (snd (handleFirstRunSetup ls w)))) =
         setter_calls (trace w) @
         [(User, ''openaiApiKey'', apiKey), (User, ''openaiBaseUrl'', baseUrl),
          (User, ''openaiModel'', model)]"
      by blast
    have 2: "workspace (fst (snd (handleFirstRunSetup ls w))) = workspace ls"
      by (simp add: h)
    have 3: "path (user (fst (snd (handleFirstRunSetup ls w)))) = path (user ls)"
      by (simp add: h)
    have 4: "\<forall>key. key \<notin> {''openaiApiKey'', ''openaiBaseUrl'', ''openaiModel''} \<longrightarrow>
      settings (user (fst (snd (handleFirstRunSetup ls w)))) key = settings (user ls) key"
      by (simp add: h)
    from 1 2 3 4 show ?thesis by blast
  next
    case (Rejected e)
    note h = handle_rejected [OF True p [unfolded Rejected]]
    have "setter_calls (trace (snd (snd (handleFirstRunSetup ls w)))) = setter_calls (trace w)"
      by (simp add: h setter_calls_append c)
    moreover have "fst (snd (handleFirstRunSetup ls w)) = ls"
      by (simp add: h)
    ultimately show ?thesis by simp
  next
    case Pending
    note h = handle_pending [OF True p [unfolded Pending]]
    have "setter_calls (trace (snd (snd (handleFirstRunSetup ls w)))) = setter_calls (trace w)"
      by (simp add: h c)
    moreover have "fst (snd (handleFirstRunSetup ls w)) = ls"
      by (simp add: h)
    ultimately show ?thesis by simp
  next
    case (Exited n)
    with p prompt_not_Exited [of w n] show ?thesis by simp
  qed
qed

theorem writes_only_three_user_keys_witness:
  "''theme'' \<notin> {''openaiApiKey'', ''openaiBaseUrl'', ''openaiModel''} \<and>
   settings (user (fst (snd (handleFirstRunSetup (stored_settings [''theme'' \<mapsto> js ''dark''])
      (process_start [js ''sk-test'', js ''u'', js ''m''] Map.empty))))) ''theme'' = Some (js ''dark'') \<and>
   workspace (fst (snd (handleFirstRunSetup (stored_settings [''theme'' \<mapsto> js ''dark''])
      (process_start [js ''sk-test'', js ''u'', js ''m''] Map.empty))))
     = workspace (stored_settings [''theme'' \<mapsto> js ''dark''])"
proof -
  let ?ls = "stored_settings [''theme'' \<mapsto> js ''dark'']"
  let ?w = "process_start [js ''sk-test'', js ''u'', js ''m''] Map.empty"
  have h: "''theme'' \<notin> {''openaiApiKey'', ''openaiBaseUrl'', ''openaiModel''}" by simp
  have s: "settings (user ?ls) ''theme'' = Some (js ''dark'')"
    by (simp add: stored_settings_def)
  note th = writes_only_three_user_keys [of ?ls ?w]
  from th have "\<forall>key. key \<notin> {''openaiApiKey'', ''openaiBaseUrl'', ''openaiModel''} \<longrightarrow>
      settings (user (fst (snd (handleFirstRunSetup ?ls ?w)))) key = settings (user ?ls) key"
    by (elim conjE)
  with h have "settings (user (fst (snd (handleFirstRunSetup ?ls ?w)))) ''theme'' =
      settings (user ?ls) ''theme''"
    by (elim allE impE)
  then have a: "settings (user (fst (snd (handleFirstRunSetup ?ls ?w)))) ''theme'' = Some (js ''dark'')"
    by (simp only: s)
  from th have b: "workspace (fst (snd (handleFirstRunSetup ?ls ?w))) = workspace ?ls"
    by (elim conjE)
  from h a b show ?thesis by (intro conjI)
qed

end
